theory Spec2Isabelle
  imports Complex_Main "HOL-Library.Sublist"
begin

section \<open>Strings, display width and the string primitives used by the table code\<close>

text \<open>
  A Go string is a byte sequence holding UTF-8 text. It is represented here by the
  sequence of its code points (runes); \<open>utf8_len\<close> gives the number of bytes a rune
  occupies, so that the byte offsets computed by \<open>strings.Index\<close>, \<open>len\<close> and the
  slice expressions \<open>e[:k]\<close>, \<open>e[k:]\<close> of the source keep their values. All offsets
  the source slices at fall on rune boundaries.
\<close>

type_synonym rune = nat
type_synonym gostring = "rune list"

definition newline :: rune where
  "newline = 10"

definition space :: rune where
  "space = 32"

definition utf8_len :: "rune \<Rightarrow> nat" where
  "utf8_len c = (if c < 128 then 1 else if c < 2048 then 2 else if c < 65536 then 3 else 4)"

text \<open>\<open>len(s)\<close>: the length of a string in bytes.\<close>

definition len :: "gostring \<Rightarrow> nat" where
  "len s = sum_list (map utf8_len s)"

text \<open>\<open>s[:k]\<close> and \<open>s[k:]\<close> for a byte offset \<open>k\<close> on a rune boundary.\<close>

fun slice_to :: "nat \<Rightarrow> gostring \<Rightarrow> gostring" where
  "slice_to k [] = []"
| "slice_to k (c # cs) = (if k < utf8_len c then [] else c # slice_to (k - utf8_len c) cs)"

fun slice_from :: "nat \<Rightarrow> gostring \<Rightarrow> gostring" where
  "slice_from k [] = []"
| "slice_from k (c # cs) = (if k = 0 then c # cs else slice_from (k - utf8_len c) cs)"

text \<open>
  \<open>strings.Index(s, c)\<close> and \<open>strings.LastIndex(s, c)\<close> for a one-byte pattern \<open>c\<close>:
  the byte offset of the first (last) occurrence, or \<open>-1\<close>.
\<close>

fun Index :: "rune \<Rightarrow> gostring \<Rightarrow> int" where
  "Index c [] = -1"
| "Index c (x # xs) =
     (if x = c then 0
      else (let r = Index c xs in if r = -1 then -1 else int (utf8_len x) + r))"

fun LastIndex :: "rune \<Rightarrow> gostring \<Rightarrow> int" where
  "LastIndex c [] = -1"
| "LastIndex c (x # xs) =
     (let r = LastIndex c xs
      in if r \<noteq> -1 then int (utf8_len x) + r else if x = c then 0 else -1)"

text \<open>
  Modelled from the spec: the display-width library (go-runewidth) is not part of the
  sources. The spec describes DisplayWidth as the sum of the terminal column costs of
  the glyphs of a string, and the width-based cut as the longest prefix whose display
  width stays within the capacity, never splitting a glyph. The cost of a single rune
  is the parameter \<open>rw\<close>; \<open>RuneWidth\<close> below is the instance used on concrete inputs.
\<close>

definition StringWidth :: "(rune \<Rightarrow> nat) \<Rightarrow> gostring \<Rightarrow> int" where
  "StringWidth rw s = int (sum_list (map rw s))"

fun truncate_loop :: "(rune \<Rightarrow> nat) \<Rightarrow> int \<Rightarrow> int \<Rightarrow> gostring \<Rightarrow> gostring" where
  "truncate_loop rw w width [] = []"
| "truncate_loop rw w width (c # cs) =
     (if width + int (rw c) > w then [] else c # truncate_loop rw w (width + int (rw c)) cs)"

definition Truncate :: "(rune \<Rightarrow> nat) \<Rightarrow> gostring \<Rightarrow> int \<Rightarrow> gostring" where
  "Truncate rw s w = (if StringWidth rw s \<le> w then s else truncate_loop rw w 0 s)"

text \<open>
  Modelled from the spec: wide glyphs (East-Asian wide and full-width forms) cost 2
  columns, other glyphs 1.
\<close>

definition RuneWidth :: "rune \<Rightarrow> nat" where
  "RuneWidth c =
     (if (4352 \<le> c \<and> c \<le> 4447) \<or> (11904 \<le> c \<and> c \<le> 42191)
         \<or> (44032 \<le> c \<and> c \<le> 55203) \<or> (63744 \<le> c \<and> c \<le> 64255)
         \<or> (65281 \<le> c \<and> c \<le> 65376) then 2
      else 1)"

text \<open>String literals of the theory are turned into rune sequences.\<close>

definition runes :: "string \<Rightarrow> gostring" where
  "runes s = map of_char s"

section \<open>Data model\<close>

record Line =
  line_begin :: gostring
  hline :: gostring
  line_sep :: gostring
  line_end :: gostring

record Row =
  row_begin :: gostring
  row_sep :: gostring
  row_end :: gostring

record TableFormat =
  LineTop :: Line
  LineBelowHeader :: Line
  LineBetweenRows :: Line
  LineBottom :: Line
  HeaderRow :: Row
  DataRow :: Row
  Padding :: int
  HeaderHide :: bool
  FitScreen :: bool

record TabulateRow =
  Elements :: "gostring list"
  Continuous :: bool

record Tabulate =
  Data :: "TabulateRow list"
  Headers :: "gostring list"
  FloatFormat :: nat
  TableFormat :: TableFormat
  Align :: gostring
  EmptyVar :: gostring
  HideLines :: "gostring list"
  MaxSize :: int
  WrapStrings :: bool
  AutoSize :: bool

text \<open>
  A Go function either returns or panics. A panic unwinds the stack and, unless a
  caller recovers, aborts the process; it is not a value of the function's result type.
\<close>

datatype panic =
    IndexOutOfRange
  | SliceBoundsOutOfRange
  | PanicMessage string
  | PanicError

datatype 'a outcome = Return 'a | Panic panic

section \<open>Wrapping\<close>

text \<open>
  The body of the inner loop of \<open>wrapCellData\<close> for one cell \<open>e\<close> of capacity
  \<open>maxColWidth\<close>: the new value of \<open>elements[i]\<close>, the value of \<open>new_elements[i]\<close>,
  and whether the cell was split (the row is then marked \<open>Continuous\<close>).
  \<open>elements[i][len(elements[i])-1:]\<close> panics on an empty string; on a non-empty one
  it is the last byte, which is a space exactly when the last rune is.
\<close>

definition wrapCell :: "(rune \<Rightarrow> nat) \<Rightarrow> int \<Rightarrow> gostring \<Rightarrow> (gostring \<times> gostring \<times> bool) outcome" where
  "wrapCell rw maxColWidth e =
     (let newlineIndex = Index newline e in
      if newlineIndex \<noteq> -1 \<and> newlineIndex < maxColWidth then
        (let h = slice_to (nat newlineIndex) e
         in Return (h, slice_from (len h + 1) e, True))
      else if StringWidth rw e > maxColWidth then
        (let h = Truncate rw e maxColWidth in
         if h = [] then Panic SliceBoundsOutOfRange
         else
           (let h' = (if last h \<noteq> space then
                        (let lastWordStart = LastIndex space h
                         in if lastWordStart \<noteq> -1 then slice_to (nat (lastWordStart + 1)) h else h)
                      else h)
            in Return (h', slice_from (len h') e, True)))
      else Return (e, [], False))"

text \<open>
  The inner loop over the cells of a row, from column \<open>i\<close> on. With \<open>AutoSize\<close> the
  capacity is \<open>cols[i]\<close>, an index panic when \<open>cols\<close> is too short; otherwise it is
  \<open>MaxSize\<close>.
\<close>

fun wrapCells :: "(rune \<Rightarrow> nat) \<Rightarrow> bool \<Rightarrow> int \<Rightarrow> int list \<Rightarrow> nat \<Rightarrow> gostring list
    \<Rightarrow> (gostring list \<times> gostring list \<times> bool) outcome" where
  "wrapCells rw auto maxSize cols i [] = Return ([], [], False)"
| "wrapCells rw auto maxSize cols i (e # es) =
     (if auto \<and> length cols \<le> i then Panic IndexOutOfRange
      else (case wrapCell rw (if auto then cols ! i else maxSize) e of
              Panic p \<Rightarrow> Panic p
            | Return (h, r, c) \<Rightarrow>
                (case wrapCells rw auto maxSize cols (i + 1) es of
                   Panic p \<Rightarrow> Panic p
                 | Return (hs, rs, cs) \<Rightarrow> Return (h # hs, r # rs, c \<or> cs))))"

text \<open>
  The outer loop of \<open>wrapCellData\<close>, with its variables \<open>arr\<close>, \<open>next\<close> and \<open>index\<close>.
  Rows are held by value: \<open>t.Data\<close> holds distinct row objects, so the in-place update
  of the row \<open>next\<close> is the updated copy \<open>next'\<close>, which is what \<open>arr\<close> receives. The
  decrement of \<open>index\<close> in the first branch cancels the increment of the loop header.
\<close>

function wrapLoop :: "(rune \<Rightarrow> nat) \<Rightarrow> Tabulate \<Rightarrow> int list \<Rightarrow> TabulateRow list \<Rightarrow> TabulateRow \<Rightarrow> nat
    \<Rightarrow> TabulateRow list outcome" where
  "wrapLoop rw t cols arr next index =
     (if \<not> index \<le> length (Data t) then Return arr
      else (case wrapCells rw (AutoSize t) (MaxSize t) cols 0 (Elements next) of
              Panic p \<Rightarrow> Panic p
            | Return (elements, new_elements, split) \<Rightarrow>
                (let next' = \<lparr>Elements = elements, Continuous = (Continuous next \<or> split)\<rparr> in
                 if Continuous next' then
                   wrapLoop rw t cols (arr @ [next'])
                     \<lparr>Elements = new_elements, Continuous = False\<rparr> index
                 else if index + 1 < length (Data t) then
                   wrapLoop rw t cols (arr @ [next']) (Data t ! (index + 1)) (index + 1)
                 else if length (Data t) \<le> index then
                   wrapLoop rw t cols (arr @ [next']) next' (index + 1)
                 else wrapLoop rw t cols arr next' (index + 1))))"
  by pat_completeness auto

text \<open>\<open>next := t.Data[0]\<close> panics on a table without rows.\<close>

definition wrapCellData :: "(rune \<Rightarrow> nat) \<Rightarrow> Tabulate \<Rightarrow> int list \<Rightarrow> TabulateRow list outcome" where
  "wrapCellData rw t cols =
     (case Data t of
        [] \<Rightarrow> Panic IndexOutOfRange
      | next # rest \<Rightarrow> wrapLoop rw t cols [] next 0)"

section \<open>Column widths\<close>

text \<open>
  The inner loop of \<open>getWidths\<close> for column \<open>i\<close>, over the rows, with the variables
  \<open>widths\<close> and \<open>current_max\<close>. The initial value \<open>len(t.EmptyVar)\<close> of \<open>current_max\<close>
  is overwritten before it is read, so the receiver is not a parameter.
\<close>

fun getWidths_rows :: "(rune \<Rightarrow> nat) \<Rightarrow> nat \<Rightarrow> TabulateRow list \<Rightarrow> int list \<times> int \<Rightarrow> int list \<times> int" where
  "getWidths_rows rw i [] (widths, current_max) = (widths, current_max)"
| "getWidths_rows rw i (item # data) (widths, current_max) =
     (if length (Elements item) > i \<and> length widths > i then
        (let element = Elements item ! i;
             strLength = StringWidth rw element
         in if strLength > current_max
            then getWidths_rows rw i data (widths[i := strLength], strLength)
            else getWidths_rows rw i data (widths[i := current_max], current_max))
      else getWidths_rows rw i data (widths, current_max))"

definition getWidths :: "(rune \<Rightarrow> nat) \<Rightarrow> gostring list \<Rightarrow> TabulateRow list \<Rightarrow> int list" where
  "getWidths rw headers data =
     fold (\<lambda>i widths. fst (getWidths_rows rw i data (widths, StringWidth rw (headers ! i))))
       [0..<length headers] (replicate (length headers) 0)"

section \<open>Process-wide state\<close>

record globals =
  MIN_PADDING :: int
  TableFormats :: "gostring \<rightharpoonup> TableFormat"

definition mkLine :: "string \<Rightarrow> string \<Rightarrow> string \<Rightarrow> string \<Rightarrow> Line" where
  "mkLine b h s e = \<lparr>line_begin = runes b, hline = runes h, line_sep = runes s, line_end = runes e\<rparr>"

definition mkRow :: "string \<Rightarrow> string \<Rightarrow> string \<Rightarrow> Row" where
  "mkRow b s e = \<lparr>row_begin = runes b, row_sep = runes s, row_end = runes e\<rparr>"

text \<open>The zero values of the structs, which Go supplies for omitted fields and missing map keys.\<close>

definition zeroLine :: Line where
  "zeroLine = \<lparr>line_begin = [], hline = [], line_sep = [], line_end = []\<rparr>"

definition zeroRow :: Row where
  "zeroRow = \<lparr>row_begin = [], row_sep = [], row_end = []\<rparr>"

definition zeroTableFormat :: TableFormat where
  "zeroTableFormat = \<lparr>LineTop = zeroLine, LineBelowHeader = zeroLine, LineBetweenRows = zeroLine,
     LineBottom = zeroLine, HeaderRow = zeroRow, DataRow = zeroRow, Padding = 0,
     HeaderHide = False, FitScreen = False\<rparr>"

definition simple_format :: TableFormat where
  "simple_format = zeroTableFormat\<lparr>LineTop := mkLine [] ''-'' ''  '' [],
     LineBelowHeader := mkLine [] ''-'' ''  '' [], LineBottom := mkLine [] ''-'' ''  '' [],
     HeaderRow := mkRow [] ''  '' [], DataRow := mkRow [] ''  '' [], Padding := 1\<rparr>"

definition plain_format :: TableFormat where
  "plain_format = zeroTableFormat\<lparr>HeaderRow := mkRow [] ''  '' [], DataRow := mkRow [] ''  '' [],
     Padding := 1\<rparr>"

definition grid_format :: TableFormat where
  "grid_format = zeroTableFormat\<lparr>LineTop := mkLine ''+'' ''-'' ''+'' ''+'',
     LineBelowHeader := mkLine ''+'' ''='' ''+'' ''+'', LineBetweenRows := mkLine ''+'' ''-'' ''+'' ''+'',
     LineBottom := mkLine ''+'' ''-'' ''+'' ''+'', HeaderRow := mkRow ''|'' ''|'' ''|'',
     DataRow := mkRow ''|'' ''|'' ''|'', Padding := 1\<rparr>"

text \<open>The box-drawing glyphs of the "border" format, by code point.\<close>

definition border_format :: TableFormat where
  "border_format = zeroTableFormat\<lparr>
     LineTop := \<lparr>line_begin = [9487], hline = [9473], line_sep = [9523], line_end = [9491]\<rparr>,
     LineBelowHeader := \<lparr>line_begin = [9505], hline = [9473], line_sep = [9543], line_end = [9513]\<rparr>,
     LineBottom := \<lparr>line_begin = [9492], hline = [9472], line_sep = [9524], line_end = [9496]\<rparr>,
     LineBetweenRows := \<lparr>line_begin = [9500], hline = [9472], line_sep = [9532], line_end = [9508]\<rparr>,
     HeaderRow := \<lparr>row_begin = [9475], row_sep = [9475], row_end = [9475]\<rparr>,
     DataRow := \<lparr>row_begin = [9474], row_sep = [9474], row_end = [9474]\<rparr>,
     Padding := 1\<rparr>"

text \<open>The state of the package variables when the program starts.\<close>

definition initial_globals :: globals where
  "initial_globals = \<lparr>MIN_PADDING = 5,
     TableFormats = [runes ''simple'' \<mapsto> simple_format, runes ''plain'' \<mapsto> plain_format,
                     runes ''grid'' \<mapsto> grid_format, runes ''border'' \<mapsto> border_format]\<rparr>"

section \<open>Autosizing\<close>

text \<open>
  \<open>float64\<close> values are exact real numbers here: the conversions of the source are exact
  below \<open>2^53\<close>, the rounding of its quotients and products is not modelled, and a
  quotient by zero, which is an infinity or NaN in Go, is 0 in HOL.
  \<open>termbox\<close> is the terminal width query: \<open>None\<close> when \<open>termbox.Init\<close> returns an
  error, otherwise the width \<open>termbox.Size\<close> reports.
\<close>

text \<open>
  The first loop of the shrinking branch over the columns \<open>is\<close>, with the variables
  \<open>cols\<close>, \<open>shrinkable\<close>, \<open>unshrinkableColumnsWidth\<close> and \<open>ratio\<close>; \<open>pad\<close> is
  \<open>MIN_PADDING * t.TableFormat.Padding\<close>.
\<close>

fun shrink_loop :: "(rune \<Rightarrow> nat) \<Rightarrow> gostring list \<Rightarrow> int \<Rightarrow> int \<Rightarrow> int \<Rightarrow> real \<Rightarrow> nat list
    \<Rightarrow> int list \<times> bool list \<times> int \<times> real \<Rightarrow> (int list \<times> bool list \<times> int \<times> real) outcome" where
  "shrink_loop rw headers pad fullWidth totalWidth averageSize [] st = Return st"
| "shrink_loop rw headers pad fullWidth totalWidth averageSize (i # is)
       (cols, shrinkable, unshrinkableColumnsWidth, ratio) =
     (if of_int (cols ! i) < averageSize then
        (let unshrinkableColumnsWidth' = unshrinkableColumnsWidth + (cols ! i + pad);
             ratio' = of_int (fullWidth - unshrinkableColumnsWidth')
                        / of_int (totalWidth - unshrinkableColumnsWidth')
         in shrink_loop rw headers pad fullWidth totalWidth averageSize is
              (cols, shrinkable, unshrinkableColumnsWidth', ratio'))
      else
        (let newSize = \<lfloor>of_int (cols ! i) * ratio\<rfloor> in
         if length headers \<le> i then Panic IndexOutOfRange
         else if newSize < StringWidth rw (headers ! i) then
           (let unshrinkableColumnsWidth' =
                  unshrinkableColumnsWidth + (StringWidth rw (headers ! i) - cols ! i + pad);
                ratio' = of_int (fullWidth - unshrinkableColumnsWidth')
                           / of_int (totalWidth - unshrinkableColumnsWidth')
            in shrink_loop rw headers pad fullWidth totalWidth averageSize is
                 (cols[i := StringWidth rw (headers ! i)], shrinkable,
                  unshrinkableColumnsWidth', ratio'))
         else shrink_loop rw headers pad fullWidth totalWidth averageSize is
                (cols, shrinkable[i := True], unshrinkableColumnsWidth, ratio)))"

definition autoSize :: "(rune \<Rightarrow> nat) \<Rightarrow> globals \<Rightarrow> int option \<Rightarrow> Tabulate \<Rightarrow> gostring list \<Rightarrow> int list
    \<Rightarrow> int list outcome" where
  "autoSize rw g termbox t headers cols =
     (let totalWidth = sum_list cols in
      case termbox of
        None \<Rightarrow> Panic PanicError
      | Some width \<Rightarrow>
          (let fullWidth = width - (2 + int (length cols) * (1 + Padding (TableFormat t) * MIN_PADDING g));
               ratio = of_int fullWidth / of_int totalWidth;
               averageSize = of_int fullWidth / of_int (int (length cols))
           in if totalWidth \<le> fullWidth then
                Return (map (\<lambda>c. \<lfloor>of_int c * ratio\<rfloor>) cols)
              else
                (case shrink_loop rw headers (MIN_PADDING g * Padding (TableFormat t)) fullWidth
                        totalWidth averageSize [0..<length cols]
                        (cols, replicate (length cols) False, 0, ratio) of
                   Panic p \<Rightarrow> Panic p
                 | Return (cols', shrinkable, unshrinkableColumnsWidth, ratio') \<Rightarrow>
                     Return (map (\<lambda>i. if shrinkable ! i then \<lfloor>of_int (cols' ! i) * ratio'\<rfloor>
                                        else cols' ! i) [0..<length cols]))))"

section \<open>Rendering\<close>

text \<open>\<open>writeBuffer.Write(str, count)\<close> appends \<open>count\<close> copies of \<open>str\<close>; none when \<open>count \<le> 0\<close>.\<close>

definition Write :: "gostring \<Rightarrow> int \<Rightarrow> gostring" where
  "Write str count = concat (replicate (nat count) str)"

definition padRow :: "gostring list \<Rightarrow> int \<Rightarrow> gostring list" where
  "padRow arr padding =
     (if length arr < 1 then arr
      else map (\<lambda>el. Write [space] padding @ Write el 1 @ Write [space] padding) arr)"

definition padLeft :: "(rune \<Rightarrow> nat) \<Rightarrow> int \<Rightarrow> gostring \<Rightarrow> gostring" where
  "padLeft rw width str = Write [space] (width - StringWidth rw str) @ Write str 1"

definition padRight :: "(rune \<Rightarrow> nat) \<Rightarrow> int \<Rightarrow> gostring \<Rightarrow> gostring" where
  "padRight rw width str = Write str 1 @ Write [space] (width - StringWidth rw str)"

definition padCenter :: "(rune \<Rightarrow> nat) \<Rightarrow> int \<Rightarrow> gostring \<Rightarrow> gostring" where
  "padCenter rw width str =
     (let padding = \<lceil>(of_int (width - StringWidth rw str) :: real) / 2\<rceil>;
          b = Write [space] padding @ Write str 1
      in b @ Write [space] (width - StringWidth rw b))"

definition getAlignFunc :: "(rune \<Rightarrow> nat) \<Rightarrow> Tabulate \<Rightarrow> int \<Rightarrow> gostring \<Rightarrow> gostring" where
  "getAlignFunc rw t =
     (if len (Align t) < 1 \<or> Align t = runes ''right'' then padLeft rw
      else if Align t = runes ''left'' then padRight rw
      else padCenter rw)"

text \<open>The cells of a line or row written one after the other, \<open>sep\<close> after each but the last.\<close>

fun write_cells :: "gostring \<Rightarrow> gostring list \<Rightarrow> gostring" where
  "write_cells sep [] = []"
| "write_cells sep [c] = c"
| "write_cells sep (c # cs) = c @ sep @ write_cells sep cs"

text \<open>\<open>padding[i]\<close> is read for every index of \<open>padded_widths\<close>: an index panic when \<open>padding\<close> is shorter.\<close>

definition buildLine :: "globals \<Rightarrow> int list \<Rightarrow> int list \<Rightarrow> Line \<Rightarrow> gostring outcome" where
  "buildLine g padded_widths padding l =
     (if length padding < length padded_widths then Panic IndexOutOfRange
      else
        (let cells = map (\<lambda>i. Write (hline l) (padding ! i + MIN_PADDING g)) [0..<length padded_widths]
         in Return (line_begin l @ write_cells (line_sep l) cells @ line_end l)))"

text \<open>The value of \<open>output\<close> in the loop of \<open>buildRow\<close> at column \<open>i\<close>.\<close>

definition row_cell :: "(rune \<Rightarrow> nat) \<Rightarrow> Tabulate \<Rightarrow> gostring list \<Rightarrow> int list \<Rightarrow> nat \<Rightarrow> gostring" where
  "row_cell rw t elements padded_widths i =
     (if length elements \<le> i \<or> (length elements > i \<and> elements ! i = runes '' nil '') then
        getAlignFunc rw t (padded_widths ! i) (EmptyVar t)
      else if length elements > i then
        getAlignFunc rw t (padded_widths ! i) (elements ! i)
      else [])"

definition buildRow :: "(rune \<Rightarrow> nat) \<Rightarrow> Tabulate \<Rightarrow> gostring list \<Rightarrow> int list \<Rightarrow> int list \<Rightarrow> Row \<Rightarrow> gostring" where
  "buildRow rw t elements padded_widths paddings d =
     row_begin d
     @ write_cells (row_sep d) (map (row_cell rw t elements padded_widths) [0..<length padded_widths])
     @ row_end d"

text \<open>
  Modelled from the spec: \<open>inSlice\<close> is not part of the sources. It decides whether a
  border line is among the suppressed lines of the configuration.
\<close>

definition inSlice :: "gostring \<Rightarrow> gostring list \<Rightarrow> bool" where
  "inSlice a xs = (a \<in> set xs)"

text \<open>The loop of \<open>Render\<close> over the data rows: each row, then the line between rows unless
  the row is the last one or is marked \<open>Continuous\<close>.\<close>

fun data_lines :: "(rune \<Rightarrow> nat) \<Rightarrow> globals \<Rightarrow> Tabulate \<Rightarrow> int list \<Rightarrow> int list \<Rightarrow> TabulateRow list
    \<Rightarrow> gostring list outcome" where
  "data_lines rw g t padded_widths cols [] = Return []"
| "data_lines rw g t padded_widths cols (element # rest) =
     (let row = buildRow rw t (padRow (Elements element) (Padding (TableFormat t)))
                  padded_widths cols (DataRow (TableFormat t))
      in if rest \<noteq> [] \<and> \<not> Continuous element then
           (case buildLine g padded_widths cols (LineBetweenRows (TableFormat t)) of
              Panic p \<Rightarrow> Panic p
            | Return l \<Rightarrow>
                (case data_lines rw g t padded_widths cols rest of
                   Panic p \<Rightarrow> Panic p
                 | Return ls \<Rightarrow> Return (row # l # ls)))
         else
           (case data_lines rw g t padded_widths cols rest of
              Panic p \<Rightarrow> Panic p
            | Return ls \<Rightarrow> Return (row # ls)))"

text \<open>A border line of \<open>Render\<close>, appended unless its name is among \<open>HideLines\<close>.\<close>

definition border_line :: "globals \<Rightarrow> Tabulate \<Rightarrow> string \<Rightarrow> int list \<Rightarrow> int list \<Rightarrow> Line \<Rightarrow> gostring list outcome" where
  "border_line g t name padded_widths cols l =
     (if \<not> inSlice (runes name) (HideLines t) then
        (case buildLine g padded_widths cols l of Panic p \<Rightarrow> Panic p | Return s \<Rightarrow> Return [s])
      else Return [])"

text \<open>The loop of \<open>Render\<close> that fills \<open>padded_widths\<close> from \<open>cols\<close>.\<close>

definition padded_widths_of :: "globals \<Rightarrow> Tabulate \<Rightarrow> int list \<Rightarrow> int list" where
  "padded_widths_of g t cols = map (\<lambda>c. c + MIN_PADDING g * Padding (TableFormat t)) cols"

text \<open>The second half of \<open>Render\<close>: the lines of the table from the column widths \<open>cols\<close>.\<close>

definition Render_lines :: "(rune \<Rightarrow> nat) \<Rightarrow> globals \<Rightarrow> Tabulate \<Rightarrow> int list \<Rightarrow> gostring outcome" where
  "Render_lines rw g t cols =
     (let padded_widths = padded_widths_of g t cols;
          f = TableFormat t
      in case border_line g t ''top'' padded_widths cols (LineTop f) of
           Panic p \<Rightarrow> Panic p
         | Return top_line \<Rightarrow>
        (let header = buildRow rw t (padRow (Headers t) (Padding f)) padded_widths cols (HeaderRow f)
         in case border_line g t ''belowheader'' padded_widths cols (LineBelowHeader f) of
              Panic p \<Rightarrow> Panic p
            | Return below \<Rightarrow>
           (case data_lines rw g t padded_widths cols (Data t) of
              Panic p \<Rightarrow> Panic p
            | Return rows \<Rightarrow>
           (case border_line g t ''bottomLine'' padded_widths cols (LineBottom f) of
              Panic p \<Rightarrow> Panic p
            | Return bottom_line \<Rightarrow>
                Return (concat (map (\<lambda>line. line @ [newline])
                                  (top_line @ [header] @ below @ rows @ bottom_line)))))))"

text \<open>The middle of \<open>Render\<close>: the column widths and the rows to print, wrapped if asked for.\<close>

definition Render_widths :: "(rune \<Rightarrow> nat) \<Rightarrow> globals \<Rightarrow> int option \<Rightarrow> Tabulate \<Rightarrow> (int list \<times> Tabulate) outcome" where
  "Render_widths rw g termbox t =
     (if AutoSize t then
        (case autoSize rw g termbox t (Headers t) (getWidths rw (Headers t) (Data t)) of
           Panic p \<Rightarrow> Panic p
         | Return cols \<Rightarrow>
             (case wrapCellData rw t cols of
                Panic p \<Rightarrow> Panic p
              | Return rows \<Rightarrow> Return (cols, t\<lparr>Data := rows\<rparr>)))
      else
        (case (if WrapStrings t then wrapCellData rw t [] else Return (Data t)) of
           Panic p \<Rightarrow> Panic p
         | Return rows \<Rightarrow> Return (getWidths rw (Headers t) rows, t\<lparr>Data := rows\<rparr>)))"

text \<open>
  \<open>Render\<close>. Its result type in the source is \<open>string\<close>: it has no error result. The
  table is updated in place, so the updated table is returned with the text. \<open>format\<close>
  is the optional name of a table format.
\<close>

definition Render :: "(rune \<Rightarrow> nat) \<Rightarrow> globals \<Rightarrow> int option \<Rightarrow> gostring option \<Rightarrow> Tabulate
    \<Rightarrow> (gostring \<times> Tabulate) outcome" where
  "Render rw g termbox format t =
     (case (if length (Headers t) < 1 then
              (case Data t of
                 [] \<Rightarrow> Panic IndexOutOfRange
               | first # rest \<Rightarrow> Return (t\<lparr>Headers := Elements first, Data := rest\<rparr>))
            else Return t) of
        Panic p \<Rightarrow> Panic p
      | Return t1 \<Rightarrow>
          (let t2 = (case format of
                       None \<Rightarrow> t1
                     | Some name \<Rightarrow>
                         t1\<lparr>TableFormat := (case TableFormats g name of
                                              None \<Rightarrow> zeroTableFormat
                                            | Some f \<Rightarrow> f)\<rparr>)
           in case Data t2 of
                [] \<Rightarrow> Panic (PanicMessage ''No Data specified'')
              | first # rest \<Rightarrow>
                  (let t3 = (if length (Headers t2) < length (Elements first)
                             then t2\<lparr>Headers := replicate (length (Elements first) - length (Headers t2)) []
                                                   @ Headers t2\<rparr>
                             else t2)
                   in case Render_widths rw g termbox t3 of
                        Panic p \<Rightarrow> Panic p
                      | Return (cols, t4) \<Rightarrow>
                          (case Render_lines rw g t4 cols of
                             Panic p \<Rightarrow> Panic p
                           | Return out \<Rightarrow> Return (out, t4)))))"

section \<open>Configuration\<close>

text \<open>
  \<open>Create\<close> on data that is already a list of rows (the converters from the accepted
  input shapes are not part of the sources): \<open>FloatFormat\<close> is \<open>'f'\<close>, \<open>MaxSize\<close> 30,
  every other field the zero value.
\<close>

definition Create :: "TabulateRow list \<Rightarrow> Tabulate" where
  "Create rows = \<lparr>Data = rows, Headers = [], FloatFormat = 102, TableFormat = zeroTableFormat,
     Align = [], EmptyVar = [], HideLines = [], MaxSize = 30, WrapStrings = False, AutoSize = False\<rparr>"

definition SetHeaders :: "gostring list \<Rightarrow> Tabulate \<Rightarrow> Tabulate" where
  "SetHeaders headers t = t\<lparr>Headers := headers\<rparr>"

definition SetAlign :: "gostring \<Rightarrow> Tabulate \<Rightarrow> Tabulate" where
  "SetAlign align t = t\<lparr>Align := align\<rparr>"

definition SetEmptyString :: "gostring \<Rightarrow> Tabulate \<Rightarrow> Tabulate" where
  "SetEmptyString s t = t\<lparr>EmptyVar := s @ [space]\<rparr>"

definition SetWrapStrings :: "bool \<Rightarrow> Tabulate \<Rightarrow> Tabulate" where
  "SetWrapStrings wrap t = t\<lparr>WrapStrings := wrap\<rparr>"

definition SetMaxCellSize :: "int \<Rightarrow> Tabulate \<Rightarrow> Tabulate" where
  "SetMaxCellSize m t = t\<lparr>MaxSize := m\<rparr>"

text \<open>\<open>SetAutoSize\<close> assigns the package variable \<open>MIN_PADDING\<close> and the field of its receiver.\<close>

definition SetAutoSize :: "bool \<Rightarrow> globals \<times> Tabulate \<Rightarrow> globals \<times> Tabulate" where
  "SetAutoSize autosize = (\<lambda>(g, t). (g\<lparr>MIN_PADDING := 2\<rparr>, t\<lparr>AutoSize := autosize\<rparr>))"

section \<open>The first pass of the shrinking branch\<close>



section \<open>Groups of rows, and the loop with a bound on its iterations\<close>

text \<open>
  The rows that wrapping makes of one row \<open>next\<close>, described row by row: when the row
  is marked or one of its cells is split, the row with the heads, marked \<open>Continuous\<close>,
  followed by the rows made of the synthetic row of the remainders; otherwise the row
  alone, unmarked.
\<close>

function row_group :: "(rune \<Rightarrow> nat) \<Rightarrow> bool \<Rightarrow> int \<Rightarrow> int list \<Rightarrow> TabulateRow \<Rightarrow> TabulateRow list outcome" where
  "row_group rw auto maxSize cols next =
     (case wrapCells rw auto maxSize cols 0 (Elements next) of
        Panic p \<Rightarrow> Panic p
      | Return (elements, new_elements, split) \<Rightarrow>
          if Continuous next \<or> split then
            (case row_group rw auto maxSize cols \<lparr>Elements = new_elements, Continuous = False\<rparr> of
               Panic p \<Rightarrow> Panic p
             | Return rest \<Rightarrow> Return (\<lparr>Elements = elements, Continuous = True\<rparr> # rest))
          else Return [\<lparr>Elements = elements, Continuous = False\<rparr>])"
  by pat_completeness auto

text \<open>The groups of all rows, one after the other, in the order of the rows.\<close>

fun all_groups :: "(rune \<Rightarrow> nat) \<Rightarrow> bool \<Rightarrow> int \<Rightarrow> int list \<Rightarrow> TabulateRow list \<Rightarrow> TabulateRow list outcome" where
  "all_groups rw auto maxSize cols [] = Return []"
| "all_groups rw auto maxSize cols (r # rs) =
     (case row_group rw auto maxSize cols r of
        Panic p \<Rightarrow> Panic p
      | Return g \<Rightarrow>
          (case all_groups rw auto maxSize cols rs of
             Panic p \<Rightarrow> Panic p
           | Return gs \<Rightarrow> Return (g @ gs)))"


section \<open>The width of a column, described by its cells\<close>

text \<open>The maximum of \<open>m\<close> and the display widths of the cells that the rows have in column \<open>i\<close>.\<close>

fun column_max :: "(rune \<Rightarrow> nat) \<Rightarrow> nat \<Rightarrow> TabulateRow list \<Rightarrow> int \<Rightarrow> int" where
  "column_max rw i [] m = m"
| "column_max rw i (item # data) m =
     (if i < length (Elements item)
      then column_max rw i data (max m (StringWidth rw (Elements item ! i)))
      else column_max rw i data m)"

text \<open>One iteration of the outer loop of \<open>getWidths\<close>, for column \<open>i\<close>.\<close>

definition width_step :: "(rune \<Rightarrow> nat) \<Rightarrow> gostring list \<Rightarrow> TabulateRow list \<Rightarrow> nat \<Rightarrow> int list \<Rightarrow> int list" where
  "width_step rw headers data i widths
     = fst (getWidths_rows rw i data (widths, StringWidth rw (headers ! i)))"

section \<open>Example tables\<close>

definition data_row :: "string list \<Rightarrow> bool \<Rightarrow> TabulateRow" where
  "data_row cells c = \<lparr>Elements = map runes cells, Continuous = c\<rparr>"

definition jon_snow :: Tabulate where
  "jon_snow = SetHeaders [runes ''Name'', runes ''City'']
                (Create [data_row [''Jon Snow'', ''Winterfell''] False])"

text \<open>A table with a cell to wrap at three columns.\<close>

definition wrapped_table :: Tabulate where
  "wrapped_table = SetWrapStrings True (SetMaxCellSize 3 (SetHeaders [runes ''T'']
                     (Create [data_row [''ab cd''] False])))"

text \<open>A table whose empty-cell placeholder has been set to "-".\<close>

definition dash_table :: Tabulate where
  "dash_table = SetEmptyString (runes ''-'') ((Create [])\<lparr>TableFormat := grid_format\<rparr>)"


section \<open>Size of the rows still to be wrapped\<close>

definition cells_size :: "gostring list \<Rightarrow> nat" where
  "cells_size es = sum_list (map length es)"

definition row_size :: "TabulateRow \<Rightarrow> nat" where
  "row_size r = cells_size (Elements r) + (if Continuous r then 1 else 0)"

text \<open>
  The quantity that decreases in every iteration of the loop of \<open>wrapCellData\<close>: the
  rows of \<open>t.Data\<close> not yet reached, the content of the row \<open>next\<close>, and the distance
  of \<open>index\<close> from the loop bound.
\<close>

definition wrap_measure :: "Tabulate \<Rightarrow> TabulateRow \<Rightarrow> nat \<Rightarrow> nat" where
  "wrap_measure t next index =
     sum_list (map (\<lambda>r. row_size r + 2) (drop (index + 1) (Data t)))
     + row_size next + (length (Data t) + 1 - index)"

section \<open>Basic facts about the string primitives and termination of the wrapping loop\<close>


lemma utf8_len_pos: "0 < utf8_len c"
  by (simp add: utf8_len_def)

lemma len_pos: "s \<noteq> [] \<Longrightarrow> 0 < len s"
  by (cases s) (simp_all add: len_def utf8_len_pos)

lemma length_slice_from_le: "length (slice_from k s) \<le> length s"
  by (induction s arbitrary: k) (auto intro: le_SucI)

lemma length_slice_from_less: "0 < k \<Longrightarrow> s \<noteq> [] \<Longrightarrow> length (slice_from k s) < length s"
  by (cases s) (auto simp: less_Suc_eq_le length_slice_from_le)

lemma length_slice_to_le: "length (slice_to k s) \<le> length s"
  by (induction s arbitrary: k) auto

lemma length_truncate_loop_le: "length (truncate_loop rw w a s) \<le> length s"
  by (induction s arbitrary: a) auto

lemma length_Truncate_le: "length (Truncate rw s w) \<le> length s"
  by (simp add: Truncate_def length_truncate_loop_le)

lemma Index_ge: "- 1 \<le> Index c s"
  by (induction s) (auto simp: Let_def)

lemma LastIndex_ge: "- 1 \<le> LastIndex c s"
  by (induction s) (auto simp: Let_def)

lemma Index_Nil_iff: "Index c s \<noteq> - 1 \<Longrightarrow> s \<noteq> []"
  by auto

lemma slice_to_LastIndex_nonempty:
  "LastIndex space h \<noteq> - 1 \<Longrightarrow> slice_to (nat (LastIndex space h + 1)) h \<noteq> []"
proof (cases h)
  case Nil
  then show "LastIndex space h \<noteq> - 1 \<Longrightarrow> ?thesis" by simp
next
  case (Cons x xs)
  assume a: "LastIndex space h \<noteq> - 1"
  show ?thesis
  proof (cases "LastIndex space xs = - 1")
    case True
    with a Cons have "x = space" "LastIndex space h = 0"
      by (auto simp: Let_def split: if_splits)
    then show ?thesis using Cons by (simp add: utf8_len_def space_def)
  next
    case False
    then have "0 \<le> LastIndex space xs" using LastIndex_ge [of space xs] by linarith
    then show ?thesis using Cons False by (simp add: Let_def nat_add_distrib)
  qed
qed

lemma wrapCell_Return:
  assumes "wrapCell rw w e = Return (h, r, c)"
  shows "length h \<le> length e \<and> length r \<le> length e \<and> (c \<longrightarrow> length r < length e)
         \<and> (\<not> c \<longrightarrow> h = e \<and> r = [])"
proof (cases "Index newline e \<noteq> - 1 \<and> Index newline e < w")
  case True
  then have ne: "e \<noteq> []" by auto
  from True assms have "h = slice_to (nat (Index newline e)) e"
    "r = slice_from (len h + 1) e" "c"
    by (auto simp: wrapCell_def Let_def)
  then show ?thesis
    using ne by (simp add: length_slice_to_le length_slice_from_le length_slice_from_less)
next
  case nl: False
  show ?thesis
  proof (cases "StringWidth rw e > w")
    case False
    with nl assms show ?thesis by (auto simp: wrapCell_def Let_def)
  next
    case True
    define t where "t = Truncate rw e w"
    from nl True assms have tne: "t \<noteq> []"
      by (auto simp: wrapCell_def Let_def t_def split: if_splits)
    have lt: "length t \<le> length e" by (simp add: t_def length_Truncate_le)
    then have ene: "e \<noteq> []" using tne by auto
    define h' where "h' = (if last t \<noteq> space then
                        (let lastWordStart = LastIndex space t
                         in if lastWordStart \<noteq> -1 then slice_to (nat (lastWordStart + 1)) t else t)
                      else t)"
    from nl True assms tne have res: "h = h'" "r = slice_from (len h') e" "c"
      by (auto simp: wrapCell_def Let_def t_def h'_def split: if_splits)
    have h'ne: "h' \<noteq> []"
      using tne slice_to_LastIndex_nonempty [of t] by (auto simp: h'_def Let_def)
    have h'le: "length h' \<le> length t"
      by (auto simp: h'_def Let_def length_slice_to_le)
    show ?thesis
      using res h'ne h'le lt ene
      by (simp add: length_slice_from_le length_slice_from_less len_pos)
  qed
qed

lemma wrapCells_Return:
  "wrapCells rw auto maxSize cols i es = Return (hs, rs, c) \<Longrightarrow>
     cells_size hs \<le> cells_size es \<and> cells_size rs \<le> cells_size es
     \<and> (c \<longrightarrow> cells_size rs < cells_size es)
     \<and> (\<not> c \<longrightarrow> hs = es \<and> cells_size rs = 0)
     \<and> length hs = length es \<and> length rs = length es"
proof (induction es arbitrary: i hs rs c)
  case Nil
  then show ?case by (auto simp: cells_size_def)
next
  case (Cons e es)
  from Cons.prems obtain h r c1 hs' rs' c2 where
    a: "wrapCell rw (if auto then cols ! i else maxSize) e = Return (h, r, c1)"
    and b: "wrapCells rw auto maxSize cols (i + 1) es = Return (hs', rs', c2)"
    and c: "hs = h # hs'" "rs = r # rs'" "c = (c1 \<or> c2)"
    by (auto split: if_splits outcome.splits prod.splits)
  have sz: "cells_size (h # hs') = length h + cells_size hs'"
    "cells_size (r # rs') = length r + cells_size rs'"
    "cells_size (e # es) = length e + cells_size es"
    by (simp_all add: cells_size_def)
  from wrapCell_Return [OF a] have
    1: "length h \<le> length e" "length r \<le> length e" "c1 \<Longrightarrow> length r < length e"
       "\<not> c1 \<Longrightarrow> h = e" "\<not> c1 \<Longrightarrow> r = []"
    by auto
  from Cons.IH [OF b] have
    2: "cells_size hs' \<le> cells_size es" "cells_size rs' \<le> cells_size es"
       "c2 \<Longrightarrow> cells_size rs' < cells_size es"
       "\<not> c2 \<Longrightarrow> hs' = es" "\<not> c2 \<Longrightarrow> cells_size rs' = 0"
       "length hs' = length es" "length rs' = length es"
    by auto
  show ?case
    unfolding c sz using 1 2 by (cases c1; cases c2) auto
qed


lemma drop_Suc_nth_sum:
  "i < length xs \<Longrightarrow> sum_list (map f (drop i xs)) = f (xs ! i) + sum_list (map f (drop (Suc i) xs))"
  by (simp add: Cons_nth_drop_Suc [symmetric])

termination wrapLoop
proof (relation "measure (\<lambda>(rw, t, cols, arr, next, index). wrap_measure t next index)", goal_cases)
  case 1
  show ?case by simp
next
  case (2 rw t cols arr "next" index x2 elements y new_elements split next')
  then have w: "wrapCells rw (AutoSize t) (MaxSize t) cols 0 (Elements next)
                 = Return (elements, new_elements, split)" by simp
  from 2 have c: "Continuous next \<or> split" by simp
  from wrapCells_Return [OF w] c
  have "cells_size new_elements + 0 < row_size next"
    by (cases split) (auto simp: row_size_def)
  then show ?case by (simp add: wrap_measure_def row_size_def)
next
  case (3 rw t cols arr "next" index x2 elements y new_elements split next')
  then have lt: "index + 1 < length (Data t)" by simp
  have "sum_list (map (\<lambda>r. row_size r + 2) (drop (index + 1) (Data t)))
        = (row_size (Data t ! (index + 1)) + 2)
          + sum_list (map (\<lambda>r. row_size r + 2) (drop (Suc (index + 1)) (Data t)))"
    using lt by (rule drop_Suc_nth_sum)
  then show ?case using lt by (simp add: wrap_measure_def)
next
  case (4 rw t cols arr "next" index x2 elements y new_elements split next')
  then have w: "wrapCells rw (AutoSize t) (MaxSize t) cols 0 (Elements next)
                 = Return (elements, new_elements, split)" by simp
  from 4 have c: "\<not> Continuous next" "\<not> split" "next' = \<lparr>Elements = elements, Continuous = False\<rparr>"
    and i: "index \<le> length (Data t)" "length (Data t) \<le> index" by simp_all
  from wrapCells_Return [OF w] c have "row_size next' \<le> row_size next"
    by (simp add: row_size_def)
  then show ?case using i by (simp add: wrap_measure_def)
next
  case (5 rw t cols arr "next" index x2 elements y new_elements split next')
  then have w: "wrapCells rw (AutoSize t) (MaxSize t) cols 0 (Elements next)
                 = Return (elements, new_elements, split)" by simp
  from 5 have c: "\<not> Continuous next" "\<not> split" "next' = \<lparr>Elements = elements, Continuous = False\<rparr>"
    and i: "index \<le> length (Data t)" "\<not> index + 1 < length (Data t)" by simp_all
  from wrapCells_Return [OF w] c have "row_size next' \<le> row_size next"
    by (simp add: row_size_def)
  then show ?case using i by (simp add: wrap_measure_def)
qed


section \<open>Evaluation on concrete tables\<close>

lemma replicate_numeral: "replicate (numeral k) x = x # replicate (pred_numeral k) x"
  by (simp add: numeral_eq_Suc)

lemmas eval_defs = wrapCell_def newline_def space_def StringWidth_def RuneWidth_def Truncate_def
  utf8_len_def len_def Let_def runes_def data_row_def wrapCellData_def Create_def SetMaxCellSize_def
  SetHeaders_def SetAutoSize_def SetEmptyString_def SetWrapStrings_def SetAlign_def

lemmas render_defs = Render_def Render_widths_def Render_lines_def padded_widths_of_def
  border_line_def buildLine_def buildRow_def row_cell_def getAlignFunc_def padLeft_def
  padRight_def padCenter_def padRow_def Write_def inSlice_def getWidths_def autoSize_def
  initial_globals_def grid_format_def zeroTableFormat_def zeroLine_def zeroRow_def mkLine_def
  mkRow_def replicate_numeral

section \<open>The process-wide padding constant\<close>

text \<open>
  The example of the specification under the "grid" format, with the padding constant
  at its initial value 5, and after a call of \<open>SetAutoSize\<close> on another table.
\<close>

lemma jon_snow_initial:
  "Render RuneWidth initial_globals None (Some (runes ''grid'')) jon_snow
   = Return (runes (''+-------------+---------------+'' @ [CHR 0x0A]
                  @ ''|        Name |          City |'' @ [CHR 0x0A]
                  @ ''+=============+===============+'' @ [CHR 0x0A]
                  @ ''|    Jon Snow |    Winterfell |'' @ [CHR 0x0A]
                  @ ''+-------------+---------------+'' @ [CHR 0x0A]),
             jon_snow\<lparr>TableFormat := grid_format\<rparr>)"
  by (simp add: jon_snow_def eval_defs render_defs)

lemma jon_snow_after_SetAutoSize:
  "Render RuneWidth (fst (SetAutoSize False (initial_globals, Create []))) None
     (Some (runes ''grid'')) jon_snow
   = Return (runes (''+----------+------------+'' @ [CHR 0x0A]
                  @ ''|     Name |       City |'' @ [CHR 0x0A]
                  @ ''+==========+============+'' @ [CHR 0x0A]
                  @ ''| Jon Snow | Winterfell |'' @ [CHR 0x0A]
                  @ ''+----------+------------+'' @ [CHR 0x0A]),
             jon_snow\<lparr>TableFormat := grid_format\<rparr>)"
  by (simp add: jon_snow_def eval_defs render_defs)



section \<open>Fatal conditions of rendering\<close>

text \<open>
  Claim C3, as stated, fails: \<open>Render\<close> has no error result. On a table without data
  rows, and on a failing terminal width query under \<open>AutoSize\<close>, it panics.
\<close>

theorem Render_fatal_counterexample:
  "Render RuneWidth initial_globals None None (SetHeaders [runes ''h''] (Create []))
     = Panic (PanicMessage ''No Data specified'')
   \<and> Render RuneWidth initial_globals None None
       ((SetHeaders [runes ''h''] (Create [data_row [''a''] False]))\<lparr>AutoSize := True\<rparr>)
     = Panic PanicError"
  by (simp add: eval_defs render_defs)

text \<open>
  Claim C3, amended. Both fatal conditions end \<open>Render\<close> in a panic, before any line of
  the table is built, so no text is returned: a table with no row left to print after
  the header row has been taken from the data, and a failing terminal width query while
  \<open>AutoSize\<close> is set on a table that has rows.
\<close>

theorem Render_fatal_panics:
  "(Data t = [] \<longrightarrow>
      Render rw g termbox format t
        = Panic (if length (Headers t) < 1 then IndexOutOfRange
                 else PanicMessage ''No Data specified''))
   \<and> (length (Headers t) < 1 \<and> length (Data t) = 1 \<longrightarrow>
      Render rw g termbox format t = Panic (PanicMessage ''No Data specified''))
   \<and> (AutoSize t \<and> (if length (Headers t) < 1 then 2 \<le> length (Data t) else 1 \<le> length (Data t)) \<longrightarrow>
      Render rw g None format t = Panic PanicError)"
proof (intro conjI impI)
  assume "Data t = []"
  then show "Render rw g termbox format t
        = Panic (if length (Headers t) < 1 then IndexOutOfRange
                 else PanicMessage ''No Data specified'')"
    by (cases format) (simp_all add: Render_def)
next
  assume "length (Headers t) < 1 \<and> length (Data t) = 1"
  then obtain r where "Data t = [r]" "Headers t = []"
    by (cases "Data t") auto
  then show "Render rw g termbox format t = Panic (PanicMessage ''No Data specified'')"
    by (cases format) (simp_all add: Render_def)
next
  assume a: "AutoSize t \<and> (if length (Headers t) < 1 then 2 \<le> length (Data t) else 1 \<le> length (Data t))"
  show "Render rw g None format t = Panic PanicError"
  proof (cases "length (Headers t) < 1")
    case True
    with a obtain r r' rs where "Data t = r # r' # rs"
      by (cases "Data t"; cases "tl (Data t)") auto
    with a True show ?thesis
      by (cases format) (simp_all add: Render_def Render_widths_def autoSize_def Let_def)
  next
    case False
    with a obtain r rs where "Data t = r # rs"
      by (cases "Data t") auto
    with a False show ?thesis
      by (cases format) (simp_all add: Render_def Render_widths_def autoSize_def Let_def)
  qed
qed

theorem Render_fatal_panics_witness:
  "Data (SetHeaders [runes ''h''] (Create [])) = []
   \<and> Render RuneWidth initial_globals (Some 80) None (SetHeaders [runes ''h''] (Create []))
       = Panic (PanicMessage ''No Data specified'')
   \<and> length (Data (Create [data_row [''h''] False])) = 1
   \<and> Render RuneWidth initial_globals (Some 80) None (Create [data_row [''h''] False])
       = Panic (PanicMessage ''No Data specified'')
   \<and> AutoSize (snd (SetAutoSize True (initial_globals, jon_snow)))
   \<and> Render RuneWidth (fst (SetAutoSize True (initial_globals, jon_snow))) None None
         (snd (SetAutoSize True (initial_globals, jon_snow)))
       = Panic PanicError"
  using Render_fatal_panics [of "SetHeaders [runes ''h''] (Create [])" RuneWidth initial_globals "Some 80" None]
        Render_fatal_panics [of "Create [data_row [''h''] False]" RuneWidth initial_globals "Some 80" None]
        Render_fatal_panics [of "snd (SetAutoSize True (initial_globals, jon_snow))" RuneWidth
          "fst (SetAutoSize True (initial_globals, jon_snow))" None None]
  by (simp add: SetHeaders_def Create_def SetAutoSize_def jon_snow_def)

section \<open>Natural column widths\<close>

lemma column_max_none:
  "\<forall>r \<in> set data. \<not> i < length (Elements r) \<Longrightarrow> column_max rw i data m = m"
  by (induction data arbitrary: m) simp_all

lemma getWidths_rows_eq:
  "i < length widths \<Longrightarrow>
   getWidths_rows rw i data (widths, m)
     = (if \<exists>r \<in> set data. i < length (Elements r) then widths[i := column_max rw i data m] else widths,
        column_max rw i data m)"
proof (induction data arbitrary: widths m)
  case Nil
  then show ?case by simp
next
  case (Cons item data)
  show ?case
  proof (cases "i < length (Elements item)")
    case False
    with Cons show ?thesis by simp
  next
    case True
    let ?s = "StringWidth rw (Elements item ! i)"
    show ?thesis
    proof (cases "?s > m")
      case gt: True
      then have mx: "max m ?s = ?s" by simp
      from Cons.prems have l: "i < length (widths[i := ?s])" by simp
      show ?thesis
        using True gt Cons.prems Cons.IH [OF l, of ?s]
        by (auto simp: Let_def mx column_max_none)
    next
      case le: False
      then have mx: "max m ?s = m" by simp
      from Cons.prems have l: "i < length (widths[i := m])" by simp
      show ?thesis
        using True le Cons.prems Cons.IH [OF l, of m]
        by (auto simp: Let_def mx column_max_none)
    qed
  qed
qed

lemma Max_insert_max:
  "finite S \<Longrightarrow> Max (insert (max a b) S) = Max (insert a (insert b S))"
  for a b :: int
  by (cases "S = {}") (simp_all add: max.assoc)

lemma column_max_eq_Max:
  "column_max rw i data m
     = Max (insert m {StringWidth rw (Elements r ! i) | r. r \<in> set data \<and> i < length (Elements r)})"
proof (induction data arbitrary: m)
  case Nil
  then show ?case by simp
next
  case (Cons item data)
  let ?S = "{StringWidth rw (Elements r ! i) | r. r \<in> set data \<and> i < length (Elements r)}"
  have fin: "finite ?S" by simp
  show ?case
  proof (cases "i < length (Elements item)")
    case True
    have "{StringWidth rw (Elements r ! i) | r. r \<in> set (item # data) \<and> i < length (Elements r)}
            = insert (StringWidth rw (Elements item ! i)) ?S"
      using True by auto
    moreover have "Max (insert (max m (StringWidth rw (Elements item ! i))) ?S)
                     = Max (insert m (insert (StringWidth rw (Elements item ! i)) ?S))"
      using fin by (rule Max_insert_max)
    ultimately show ?thesis using True Cons.IH by simp
  next
    case False
    have "{StringWidth rw (Elements r ! i) | r. r \<in> set (item # data) \<and> i < length (Elements r)} = ?S"
      using False by auto
    then show ?thesis using False Cons.IH by simp
  qed
qed

lemma fold_width_step:
  "k \<le> n \<Longrightarrow>
     length (fold (width_step rw headers data) [0..<k] (replicate n 0)) = n
     \<and> (\<forall>i < n. fold (width_step rw headers data) [0..<k] (replicate n 0) ! i
           = (if i < k \<and> (\<exists>r \<in> set data. i < length (Elements r))
              then column_max rw i data (StringWidth rw (headers ! i)) else 0))"
proof (induction k)
  case 0
  then show ?case by simp
next
  case (Suc k)
  define ws where "ws = fold (width_step rw headers data) [0..<k] (replicate n 0)"
  from Suc have l: "length ws = n" and
    v: "\<forall>i < n. ws ! i = (if i < k \<and> (\<exists>r \<in> set data. i < length (Elements r))
              then column_max rw i data (StringWidth rw (headers ! i)) else 0)"
    by (simp_all add: ws_def)
  have kl: "k < length ws" using Suc.prems l by simp
  have f: "fold (width_step rw headers data) [0..<Suc k] (replicate n 0)
             = width_step rw headers data k ws"
    by (simp add: ws_def)
  have s: "width_step rw headers data k ws
             = (if \<exists>r \<in> set data. k < length (Elements r)
                then ws[k := column_max rw k data (StringWidth rw (headers ! k))] else ws)"
    by (simp add: width_step_def getWidths_rows_eq [OF kl])
  show ?case
    unfolding f s using l v kl
    by (auto simp: nth_list_update less_Suc_eq)
qed

lemma getWidths_nth:
  assumes "i < length headers"
  shows "getWidths rw headers data ! i
           = (if \<exists>r \<in> set data. i < length (Elements r)
              then Max (insert (StringWidth rw (headers ! i))
                     {StringWidth rw (Elements r ! i) | r. r \<in> set data \<and> i < length (Elements r)})
              else 0)"
proof -
  have "getWidths rw headers data
          = fold (width_step rw headers data) [0..<length headers] (replicate (length headers) 0)"
    by (simp add: getWidths_def width_step_def [abs_def])
  then show ?thesis
    using fold_width_step [of "length headers" "length headers" rw headers data] assms
    by (simp add: column_max_eq_Max)
qed

text \<open>
  Claim C4. The header gives the first value of the running maximum of a column, but
  \<open>widths[i]\<close> is assigned only while a row with a cell in column \<open>i\<close> is visited: by
  \<open>getWidths_nth\<close> the width is the maximum the claim describes when some row has a
  cell in the column, and 0 otherwise. With the headers "Name" and "City" and the single
  row \<open>["a"]\<close>, no row has a cell in the second column, and its width stays 0 instead
  of the display width 4 of its header.
\<close>

theorem getWidths_column_without_cells:
  "getWidths RuneWidth [runes ''Name'', runes ''City''] [data_row [''a''] False] = [4, 0]
   \<and> StringWidth RuneWidth (runes ''City'') = 4"
  by (simp add: eval_defs render_defs)

section \<open>Wrapping twice\<close>

text \<open>
  \<open>Render\<close> stores the wrapped rows in the table. Rendering the table a second time
  wraps them again, and prints an empty row and a line between rows that the first
  rendering does not have.
\<close>

lemma Render_twice:
  "Render RuneWidth initial_globals None (Some (runes ''grid'')) wrapped_table
     = Return (runes (''+--------+'' @ [CHR 0x0A]
                    @ ''|      T |'' @ [CHR 0x0A]
                    @ ''+========+'' @ [CHR 0x0A]
                    @ ''|    ab  |'' @ [CHR 0x0A]
                    @ ''|     cd |'' @ [CHR 0x0A]
                    @ ''+--------+'' @ [CHR 0x0A]),
               wrapped_table\<lparr>TableFormat := grid_format,
                 Data := [data_row [''ab ''] True, data_row [''cd''] False]\<rparr>)
   \<and> Render RuneWidth initial_globals None (Some (runes ''grid''))
         (wrapped_table\<lparr>TableFormat := grid_format,
            Data := [data_row [''ab ''] True, data_row [''cd''] False]\<rparr>)
     = Return (runes (''+--------+'' @ [CHR 0x0A]
                    @ ''|      T |'' @ [CHR 0x0A]
                    @ ''+========+'' @ [CHR 0x0A]
                    @ ''|    ab  |'' @ [CHR 0x0A]
                    @ ''|        |'' @ [CHR 0x0A]
                    @ ''+--------+'' @ [CHR 0x0A]
                    @ ''|     cd |'' @ [CHR 0x0A]
                    @ ''+--------+'' @ [CHR 0x0A]),
               wrapped_table\<lparr>TableFormat := grid_format,
                 Data := [data_row [''ab ''] True, data_row [[]] False, data_row [''cd''] False]\<rparr>)"
  by (simp add: wrapped_table_def eval_defs render_defs)

text \<open>
  Claim C1. With \<open>MaxSize\<close> 3 the row \<open>["ab cd"]\<close> is wrapped into the rows \<open>["ab "]\<close>,
  marked \<open>Continuous\<close>, and \<open>["cd"]\<close>. Wrapping these two rows again with the same
  capacity splits no cell, but the mark left on the first row makes the loop add an
  empty row after it: three rows come out.
\<close>

theorem wrapCellData_twice:
  "wrapCellData RuneWidth (SetMaxCellSize 3 (Create [data_row [''ab cd''] False])) []
     = Return [data_row [''ab ''] True, data_row [''cd''] False]
   \<and> wrapCellData RuneWidth
         (SetMaxCellSize 3 (Create [data_row [''ab ''] True, data_row [''cd''] False])) []
     = Return [data_row [''ab ''] True, data_row [[]] False, data_row [''cd''] False]"
  by (simp add: eval_defs)


section \<open>Splitting a cell\<close>

lemma len_append: "len (xs @ ys) = len xs + len ys"
  by (simp add: len_def)

lemma len_Nil: "len [] = 0"
  by (simp add: len_def)

lemma utf8_len_neq0: "utf8_len c \<noteq> 0"
  by (simp add: utf8_len_def)

lemma len_Cons: "len (x # xs) = utf8_len x + len xs"
  by (simp add: len_def)

lemma slice_to_append: "slice_to (len h + k) (h @ r) = h @ slice_to k r"
  by (induction h) (simp_all add: len_Cons len_Nil)

lemma slice_from_append: "slice_from (len h + k) (h @ r) = slice_from k r"
  by (induction h) (simp_all add: len_Cons len_Nil utf8_len_neq0)

lemma slice_to_0: "slice_to 0 r = []"
  by (cases r) (simp_all add: utf8_len_pos)

lemma slice_from_0: "slice_from 0 r = r"
  by (cases r) simp_all

lemma slice_to_len: "slice_to (len h) (h @ r) = h"
  using slice_to_append [of h 0 r] by (simp add: slice_to_0)

lemma slice_from_len: "slice_from (len h) (h @ r) = r"
  using slice_from_append [of h 0 r] by (simp add: slice_from_0)

lemma Index_notin: "c \<notin> set s \<Longrightarrow> Index c s = - 1"
  by (induction s) (simp_all add: Let_def)

lemma Index_append: "c \<notin> set h \<Longrightarrow> Index c (h @ c # r) = int (len h)"
  by (induction h) (simp_all add: Let_def len_Cons len_Nil)

lemma Index_in:
  "c \<in> set s \<Longrightarrow> Index c s = int (len (takeWhile (\<lambda>x. x \<noteq> c) s))"
proof -
  assume "c \<in> set s"
  then have "s = takeWhile (\<lambda>x. x \<noteq> c) s @ c # tl (dropWhile (\<lambda>x. x \<noteq> c) s)"
    by (metis (mono_tags, lifting) dropWhile_eq_Nil_conv hd_dropWhile list.collapse takeWhile_dropWhile_id)
  moreover have "c \<notin> set (takeWhile (\<lambda>x. x \<noteq> c) s)"
    by (auto dest: set_takeWhileD)
  ultimately show ?thesis using Index_append by metis
qed

lemma LastIndex_notin: "c \<notin> set s \<Longrightarrow> LastIndex c s = - 1"
  by (induction s) (simp_all add: Let_def)

lemma LastIndex_append: "c \<notin> set w \<Longrightarrow> LastIndex c (h @ c # w) = int (len h)"
  by (induction h) (simp_all add: Let_def len_Cons len_Nil LastIndex_notin)

lemma truncate_loop_prefix: "prefix (truncate_loop rw w a s) s"
  by (induction s arbitrary: a) simp_all

lemma Truncate_prefix: "prefix (Truncate rw s w) s"
  by (simp add: Truncate_def truncate_loop_prefix)

text \<open>
  Claim C7, as stated, fails for a newline at the cut point itself. The cell "abc",
  newline, "def" with capacity 3 has its newline at byte offset 3, which is not below 3:
  the cut is made by width. With a newline of width 1 the head is "abc" and the
  remainder keeps the newline; with a newline of width 0 the head keeps it. It also
  fails before the cut point when the text is not single-byte, the position of the
  newline being counted in bytes: after two letters U+00E9, of two bytes and one column
  each, the newline is in the third column but at byte offset 4, and with capacity 3 the
  head keeps it.
\<close>

theorem wrapCell_newline_at_cut_counterexample:
  "Index newline (runes ''abc'' @ [newline] @ runes ''def'') = 3
   \<and> StringWidth RuneWidth (runes ''abc'' @ [newline] @ runes ''def'') > 3
   \<and> wrapCell RuneWidth 3 (runes ''abc'' @ [newline] @ runes ''def'')
       = Return (runes ''abc'', [newline] @ runes ''def'', True)
   \<and> wrapCell (\<lambda>c. if c = newline then 0 else 1) 3 (runes ''abc'' @ [newline] @ runes ''def'')
       = Return (runes ''abc'' @ [newline], runes ''def'', True)
   \<and> StringWidth RuneWidth [233, 233] = 2
   \<and> Index newline ([233, 233] @ [newline] @ runes ''ab'') = 4
   \<and> wrapCell RuneWidth 3 ([233, 233] @ [newline] @ runes ''ab'')
       = Return ([233, 233] @ [newline], runes ''ab'', True)"
  by (simp add: eval_defs)

text \<open>
  Claim C7, amended. When the byte offset of the first newline of a cell is strictly
  below the capacity, the cell is split at that newline: the head is the text before
  it, the remainder the text after it, whatever the words and the width of the cell are.
\<close>

theorem wrapCell_newline_first:
  assumes "newline \<in> set e"
    and "int (len (takeWhile (\<lambda>c. c \<noteq> newline) e)) < maxColWidth"
  shows "wrapCell rw maxColWidth e
           = Return (takeWhile (\<lambda>c. c \<noteq> newline) e, tl (dropWhile (\<lambda>c. c \<noteq> newline) e), True)"
proof -
  define h where "h = takeWhile (\<lambda>c. c \<noteq> newline) e"
  define r where "r = tl (dropWhile (\<lambda>c. c \<noteq> newline) e)"
  have e: "e = h @ newline # r"
    unfolding h_def r_def using assms(1)
    by (metis (mono_tags, lifting) dropWhile_eq_Nil_conv hd_dropWhile list.collapse takeWhile_dropWhile_id)
  have i: "Index newline e = int (len h)"
    unfolding h_def using assms(1) by (rule Index_in)
  have st: "slice_to (len h) e = h"
    using slice_to_len [of h "newline # r"] e by simp
  have "slice_from (len h + 1) (h @ newline # r) = slice_from 1 (newline # r)"
    by (rule slice_from_append)
  then have sf: "slice_from (len h + 1) e = r"
    using e by (simp add: utf8_len_def newline_def slice_from_0)
  show ?thesis
    using assms(2) i st sf
    by (simp add: wrapCell_def Let_def h_def [symmetric] r_def [symmetric])
qed

theorem wrapCell_newline_first_witness:
  "newline \<in> set (runes ''ab'' @ [newline] @ runes ''cd ef'')
   \<and> int (len (takeWhile (\<lambda>c. c \<noteq> newline) (runes ''ab'' @ [newline] @ runes ''cd ef''))) < 5
   \<and> StringWidth RuneWidth (runes ''ab'' @ [newline] @ runes ''cd ef'') > 5
   \<and> wrapCell RuneWidth 5 (runes ''ab'' @ [newline] @ runes ''cd ef'')
       = Return (runes ''ab'', runes ''cd ef'', True)"
  using wrapCell_newline_first [of "runes ''ab'' @ [newline] @ runes ''cd ef''" 5 RuneWidth]
  by (simp add: eval_defs)

text \<open>
  Claim C8, as stated, fails: the space the cut backs up to is kept, as the last
  character of the head. "ab cdef" with capacity 5 is truncated to "ab cd" and then cut
  into the head "ab " and the remainder "cdef".
\<close>

theorem wrapCell_word_boundary_counterexample:
  "StringWidth RuneWidth (runes ''ab cdef'') > 5
   \<and> Truncate RuneWidth (runes ''ab cdef'') 5 = runes ''ab cd''
   \<and> wrapCell RuneWidth 5 (runes ''ab cdef'') = Return (runes ''ab '', runes ''cdef'', True)
   \<and> last (runes ''ab '') = space"
  by (simp add: eval_defs)

text \<open>
  Claim C8, amended. In a width-based cut whose truncated head \<open>h @ space # w\<close> does not
  end with a space (\<open>w\<close> is the non-empty piece of a word after the last space), the cut
  backs up to just after that space: the head is \<open>h\<close> with the space as its last
  character, the remainder is the rest of the cell, and nothing is discarded.
\<close>

theorem wrapCell_word_boundary:
  assumes "\<not> (Index newline e \<noteq> - 1 \<and> Index newline e < maxColWidth)"
    and "StringWidth rw e > maxColWidth"
    and "Truncate rw e maxColWidth = h @ space # w"
    and "w \<noteq> []" and "space \<notin> set w"
  shows "wrapCell rw maxColWidth e = Return (h @ [space], drop (length h + 1) e, True)
         \<and> e = (h @ [space]) @ drop (length h + 1) e"
proof -
  define t where "t = Truncate rw e maxColWidth"
  have t: "t = h @ space # w" by (simp add: t_def assms(3))
  have "prefix t e" unfolding t_def by (rule Truncate_prefix)
  then obtain r where e: "e = (h @ [space]) @ (w @ r)"
    using t by (auto simp: prefix_def)
  have d: "drop (length h + 1) e = w @ r"
    using e by simp
  have "last w \<in> set w" using assms(4) by simp
  then have "last w \<noteq> space" using assms(5) by metis
  then have l: "last t \<noteq> space"
    using assms(4) t by simp
  have li: "LastIndex space t = int (len h)"
    unfolding t using assms(5) by (rule LastIndex_append)
  have "slice_to (len (h @ [space])) ((h @ [space]) @ w) = h @ [space]"
    by (rule slice_to_len)
  then have st: "slice_to (nat (int (len h) + 1)) t = h @ [space]"
    using t by (simp add: len_append len_Cons utf8_len_def space_def nat_add_distrib len_def)
  have sf: "slice_from (len (h @ [space])) e = w @ r"
    using slice_from_len [of "h @ [space]" "w @ r"] e by simp
  have "wrapCell rw maxColWidth e = Return (h @ [space], w @ r, True)"
    using assms(1,2) l li st sf t
    by (auto simp: wrapCell_def Let_def t_def [symmetric])
  then show ?thesis using d e by simp
qed

theorem wrapCell_word_boundary_witness:
  "\<not> (Index newline (runes ''ab cdef'') \<noteq> - 1 \<and> Index newline (runes ''ab cdef'') < 5)
   \<and> StringWidth RuneWidth (runes ''ab cdef'') > 5
   \<and> Truncate RuneWidth (runes ''ab cdef'') 5 = runes ''ab'' @ space # runes ''cd''
   \<and> runes ''cd'' \<noteq> [] \<and> space \<notin> set (runes ''cd'')
   \<and> wrapCell RuneWidth 5 (runes ''ab cdef'') = Return (runes ''ab'' @ [space], runes ''cdef'', True)"
  using wrapCell_word_boundary [of "runes ''ab cdef''" 5 RuneWidth "runes ''ab''" "runes ''cd''"]
  by (simp add: eval_defs)

section \<open>Cells of a rendered row\<close>

lemma Write_once: "Write el 1 = el"
  by (simp add: Write_def)

text \<open>
  Claim C9, as stated, fails: an empty cell is not replaced by the placeholder. With the
  placeholder "- " and padding 1, the row of the cells "" and "x" renders the first
  column as blanks, while a row without cells renders the placeholder in both columns.
\<close>

theorem buildRow_empty_cell_counterexample:
  "buildRow RuneWidth dash_table (padRow [[], runes ''x''] 1) [6, 6] [1, 1] (DataRow grid_format)
     = runes ''|      |    x |''
   \<and> buildRow RuneWidth dash_table (padRow [] 1) [6, 6] [1, 1] (DataRow grid_format)
     = runes ''|    - |    - |''"
  by (simp add: dash_table_def eval_defs render_defs)

text \<open>
  Claim C9, amended. \<open>Render\<close> builds a data row from its cells padded by \<open>p\<close> spaces on
  each side. Column \<open>i\<close> shows the placeholder \<open>EmptyVar\<close>, alignment-padded into the
  padded width, when the row has no cell \<open>i\<close> or when the padded cell is the marker
  " nil "; every other cell shows its own padded content, and so an empty cell shows
  \<open>2 * p\<close> blanks, alignment-padded.
\<close>

theorem buildRow_placeholder:
  "buildRow rw t (padRow cells p) padded_widths paddings d
     = row_begin d
       @ write_cells (row_sep d)
           (map (\<lambda>i. getAlignFunc rw t (padded_widths ! i)
                        (if length cells \<le> i
                            \<or> Write [space] p @ cells ! i @ Write [space] p = runes '' nil ''
                         then EmptyVar t
                         else Write [space] p @ cells ! i @ Write [space] p))
              [0..<length padded_widths])
       @ row_end d
   \<and> (i < length cells \<and> cells ! i = [] \<longrightarrow>
        row_cell rw t (padRow cells p) padded_widths i
          = getAlignFunc rw t (padded_widths ! i) (Write [space] p @ Write [space] p))"
proof
  have "row_cell rw t (padRow cells p) padded_widths j
          = getAlignFunc rw t (padded_widths ! j)
              (if length cells \<le> j
                  \<or> Write [space] p @ cells ! j @ Write [space] p = runes '' nil ''
               then EmptyVar t
               else Write [space] p @ cells ! j @ Write [space] p)" for j
    by (cases "j < length cells") (auto simp: row_cell_def padRow_def Write_once)
  then have "row_cell rw t (padRow cells p) padded_widths
          = (\<lambda>i. getAlignFunc rw t (padded_widths ! i)
                        (if length cells \<le> i
                            \<or> Write [space] p @ cells ! i @ Write [space] p = runes '' nil ''
                         then EmptyVar t
                         else Write [space] p @ cells ! i @ Write [space] p))"
    by (intro ext)
  then show "buildRow rw t (padRow cells p) padded_widths paddings d
     = row_begin d
       @ write_cells (row_sep d)
           (map (\<lambda>i. getAlignFunc rw t (padded_widths ! i)
                        (if length cells \<le> i
                            \<or> Write [space] p @ cells ! i @ Write [space] p = runes '' nil ''
                         then EmptyVar t
                         else Write [space] p @ cells ! i @ Write [space] p))
              [0..<length padded_widths])
       @ row_end d"
    by (simp add: buildRow_def)
next
  have ne: "Write [space] p @ Write [space] p \<noteq> runes '' nil ''"
  proof
    assume "Write [space] p @ Write [space] p = runes '' nil ''"
    then have "set (Write [space] p @ Write [space] p) = set (runes '' nil '')" by simp
    moreover have "set (Write [space] p @ Write [space] p) \<subseteq> {space}"
      by (auto simp: Write_def)
    ultimately show False by (auto simp: runes_def space_def)
  qed
  show "i < length cells \<and> cells ! i = [] \<longrightarrow>
        row_cell rw t (padRow cells p) padded_widths i
          = getAlignFunc rw t (padded_widths ! i) (Write [space] p @ Write [space] p)"
    using ne by (auto simp: row_cell_def padRow_def Write_once)
qed

theorem buildRow_placeholder_witness:
  "buildRow RuneWidth dash_table (padRow [runes ''nil'', []] 1) [6, 6, 6] [1, 1, 1] (DataRow grid_format)
     = runes ''|    - |      |    - |''
   \<and> row_cell RuneWidth dash_table (padRow [runes ''nil'', []] 1) [6, 6, 6] 1 = runes ''      ''"
  using buildRow_placeholder [of RuneWidth dash_table "[runes ''nil'', []]" 1 "[6, 6, 6]" "[1, 1, 1]"
          "DataRow grid_format" 1]
  by (simp add: dash_table_def eval_defs render_defs)


section \<open>Autosizing and the header widths\<close>









section \<open>The loop of wrapCellData\<close>

lemma row_size_split:
  assumes "wrapCells rw auto maxSize cols 0 (Elements next) = Return (elements, new_elements, split)"
    and "Continuous next \<or> split"
  shows "row_size \<lparr>Elements = new_elements, Continuous = False\<rparr> < row_size next"
  using wrapCells_Return [OF assms(1)] assms(2)
  by (cases split) (auto simp: row_size_def)

lemma row_unsplit:
  assumes "wrapCells rw auto maxSize cols 0 (Elements next) = Return (elements, new_elements, split)"
    and "\<not> (Continuous next \<or> split)"
  shows "\<lparr>Elements = elements, Continuous = False\<rparr> = next"
  using wrapCells_Return [OF assms(1)] assms(2) by (cases "next") simp

termination row_group
proof (relation "measure (\<lambda>(rw, auto, maxSize, cols, next). row_size next)", goal_cases)
  case 1
  show ?case by simp
next
  case (2 rw auto maxSize cols "next" x2 elements y new_elements split)
  then have "wrapCells rw auto maxSize cols 0 (Elements next) = Return (elements, new_elements, split)"
    "Continuous next \<or> split" by simp_all
  from row_size_split [OF this] show ?case by simp
qed

lemma wrap_measure_split:
  assumes "wrapCells rw (AutoSize t) (MaxSize t) cols 0 (Elements next) = Return (elements, new_elements, split)"
    and "Continuous next \<or> split"
  shows "wrap_measure t \<lparr>Elements = new_elements, Continuous = False\<rparr> index < wrap_measure t next index"
  using row_size_split [OF assms] by (simp add: wrap_measure_def)

lemma wrap_measure_next_row:
  assumes "index + 1 < length (Data t)"
  shows "wrap_measure t (Data t ! (index + 1)) (index + 1) < wrap_measure t next index"
proof -
  have "sum_list (map (\<lambda>r. row_size r + 2) (drop (index + 1) (Data t)))
        = (row_size (Data t ! (index + 1)) + 2)
          + sum_list (map (\<lambda>r. row_size r + 2) (drop (Suc (index + 1)) (Data t)))"
    using assms by (rule drop_Suc_nth_sum)
  then show ?thesis using assms by (simp add: wrap_measure_def)
qed





lemma wrapLoop_end:
  assumes "index = length (Data t)"
    and "wrapCells rw (AutoSize t) (MaxSize t) cols 0 (Elements next)
           = Return (Elements next, new_elements, False)"
    and "\<not> Continuous next"
  shows "wrapLoop rw t cols arr next index = Return (arr @ [next])"
proof -
  have n: "\<lparr>Elements = Elements next, Continuous = False\<rparr> = next"
    using assms(3) by (cases "next") simp
  have "wrapLoop rw t cols arr next index = wrapLoop rw t cols (arr @ [next]) next (index + 1)"
    using assms by (subst wrapLoop.simps) (simp add: Let_def n del: wrapLoop.simps)
  also have "\<dots> = Return (arr @ [next])"
    using assms(1) by (subst wrapLoop.simps) simp
  finally show ?thesis .
qed

lemma wrapLoop_groups:
  "index < length (Data t) \<Longrightarrow>
   wrapLoop rw t cols arr next index
     = (case row_group rw (AutoSize t) (MaxSize t) cols next of
          Panic p \<Rightarrow> Panic p
        | Return g \<Rightarrow>
            (case all_groups rw (AutoSize t) (MaxSize t) cols (drop (index + 1) (Data t)) of
               Panic p \<Rightarrow> Panic p
             | Return gs \<Rightarrow> Return (arr @ g @ gs)))"
proof (induction "wrap_measure t next index" arbitrary: arr "next" index rule: less_induct)
  case less
  have le: "index \<le> length (Data t)" using less.prems by simp
  show ?case
  proof (cases "wrapCells rw (AutoSize t) (MaxSize t) cols 0 (Elements next)")
    case (Panic p)
    have "wrapLoop rw t cols arr next index = Panic p"
      using le Panic by (subst wrapLoop.simps) simp
    moreover have "row_group rw (AutoSize t) (MaxSize t) cols next = Panic p"
      using Panic by (subst row_group.simps) simp
    ultimately show ?thesis by simp
  next
    case (Return res)
    then obtain elements new_elements split where
      w: "wrapCells rw (AutoSize t) (MaxSize t) cols 0 (Elements next)
            = Return (elements, new_elements, split)"
      by (cases res) auto
    show ?thesis
    proof (cases "Continuous next \<or> split")
      case True
      let ?syn = "\<lparr>Elements = new_elements, Continuous = False\<rparr>"
      let ?hd = "\<lparr>Elements = elements, Continuous = True\<rparr>"
      have l: "wrapLoop rw t cols arr next index = wrapLoop rw t cols (arr @ [?hd]) ?syn index"
        using le w True by (subst wrapLoop.simps) (simp del: wrapLoop.simps)
      have g: "row_group rw (AutoSize t) (MaxSize t) cols next
                 = (case row_group rw (AutoSize t) (MaxSize t) cols ?syn of
                      Panic p \<Rightarrow> Panic p
                    | Return rest \<Rightarrow> Return (?hd # rest))"
        using w True by (subst row_group.simps) (simp del: row_group.simps)
      have ih: "wrapLoop rw t cols (arr @ [?hd]) ?syn index
                  = (case row_group rw (AutoSize t) (MaxSize t) cols ?syn of
                       Panic p \<Rightarrow> Panic p
                     | Return g \<Rightarrow>
                         (case all_groups rw (AutoSize t) (MaxSize t) cols (drop (index + 1) (Data t)) of
                            Panic p \<Rightarrow> Panic p
                          | Return gs \<Rightarrow> Return ((arr @ [?hd]) @ g @ gs)))"
        using wrap_measure_split [OF w True] less.prems by (intro less.hyps)
      show ?thesis
        unfolding l ih g
        by (simp split: outcome.splits)
    next
      case False
      note same = row_unsplit [OF w False]
      have el: "elements = Elements next" using same by (cases "next") auto
      have g: "row_group rw (AutoSize t) (MaxSize t) cols next = Return [next]"
        using w False same by (subst row_group.simps) (simp del: row_group.simps)
      show ?thesis
      proof (cases "index + 1 < length (Data t)")
        case True
        have l: "wrapLoop rw t cols arr next index
                   = wrapLoop rw t cols (arr @ [next]) (Data t ! (index + 1)) (index + 1)"
          using le w False True same by (subst wrapLoop.simps) (simp del: wrapLoop.simps)
        have ih: "wrapLoop rw t cols (arr @ [next]) (Data t ! (index + 1)) (index + 1)
                  = (case row_group rw (AutoSize t) (MaxSize t) cols (Data t ! (index + 1)) of
                       Panic p \<Rightarrow> Panic p
                     | Return g \<Rightarrow>
                         (case all_groups rw (AutoSize t) (MaxSize t) cols
                                 (drop (index + 1 + 1) (Data t)) of
                            Panic p \<Rightarrow> Panic p
                          | Return gs \<Rightarrow> Return ((arr @ [next]) @ g @ gs)))"
          using wrap_measure_next_row [OF True] True by (intro less.hyps)
        have d: "drop (index + 1) (Data t) = Data t ! (index + 1) # drop (index + 1 + 1) (Data t)"
          using True by (simp add: Cons_nth_drop_Suc)
        show ?thesis
          unfolding l ih g d
          by (simp split: outcome.splits)
      next
        case nlt: False
        then have idx: "index + 1 = length (Data t)" using less.prems by simp
        have l: "wrapLoop rw t cols arr next index = wrapLoop rw t cols arr next (index + 1)"
          using le w False nlt same less.prems by (subst wrapLoop.simps) (simp del: wrapLoop.simps)
        have e: "wrapLoop rw t cols arr next (index + 1) = Return (arr @ [next])"
          using idx w False el by (intro wrapLoop_end [where new_elements = new_elements]) simp_all
        show ?thesis
          unfolding l e g using idx by simp
      qed
    qed
  qed
qed

lemma wrapCellData_all_groups:
  "Data t \<noteq> [] \<Longrightarrow>
   wrapCellData rw t cols = all_groups rw (AutoSize t) (MaxSize t) cols (Data t)"
proof -
  assume "Data t \<noteq> []"
  then obtain r rs where d: "Data t = r # rs" by (cases "Data t") auto
  then have "0 < length (Data t)" by simp
  from wrapLoop_groups [OF this, of rw cols "[]" r] d show ?thesis
    by (simp add: wrapCellData_def del: wrapLoop.simps split: outcome.splits)
qed

lemma row_group_flags:
  "row_group rw auto maxSize cols next = Return grp \<Longrightarrow>
   grp \<noteq> [] \<and> (\<forall>r \<in> set (butlast grp). Continuous r) \<and> \<not> Continuous (last grp)"
proof (induction rw auto maxSize cols "next" arbitrary: grp rule: row_group.induct)
  case (1 rw auto maxSize cols "next")
  from "1.prems" obtain elements new_elements split where
    w: "wrapCells rw auto maxSize cols 0 (Elements next) = Return (elements, new_elements, split)"
    by (subst (asm) row_group.simps) (auto simp del: row_group.simps split: outcome.splits)
  show ?case
  proof (cases "Continuous next \<or> split")
    case True
    with "1.prems" w obtain rest where
      r: "row_group rw auto maxSize cols \<lparr>Elements = new_elements, Continuous = False\<rparr> = Return rest"
      and g: "grp = \<lparr>Elements = elements, Continuous = True\<rparr> # rest"
      by (subst (asm) row_group.simps) (auto simp del: row_group.simps split: outcome.splits)
    from "1.IH" [OF w refl refl True r] g show ?thesis by simp
  next
    case False
    with "1.prems" w have "grp = [\<lparr>Elements = elements, Continuous = False\<rparr>]"
      by (subst (asm) row_group.simps) (auto simp del: row_group.simps)
    then show ?thesis by simp
  qed
qed



text \<open>
  Claim C5, as stated, fails on the marks. With \<open>MaxSize\<close> 5, the row "hello world",
  "x" comes out with its heads "hello", "x" and marked \<open>Continuous\<close>; the synthetic row
  " ", "" that follows is marked too, being split again; the last synthetic row
  "world", "" of the group is not marked.
\<close>

theorem wrapCellData_marks_counterexample:
  "wrapCellData RuneWidth
     (SetMaxCellSize 5 (Create [data_row [''hello world'', ''x''] False, data_row [''a''] False])) []
   = Return [data_row [''hello'', ''x''] True, data_row ['' '', []] True,
             data_row [''world'', []] False, data_row [''a''] False]"
  by (simp add: eval_defs)

text \<open>
  Claim C5, amended. The rows that \<open>wrapCellData\<close> returns are the groups of the input
  rows, in the order of the rows. The group of a row in which a cell is split starts with
  that row, holding the heads and marked \<open>Continuous\<close>; the rest of the group is not
  empty and is the group of the synthetic row holding the remainders, so every synthetic
  row immediately follows the row it continues; a synthetic row is marked \<open>Continuous\<close>
  when it is split further, and the last row of the group is not marked.
\<close>

theorem wrapCellData_groups:
  "(Data t \<noteq> [] \<longrightarrow>
      wrapCellData rw t cols = all_groups rw (AutoSize t) (MaxSize t) cols (Data t))
   \<and> (wrapCells rw auto maxSize cols 0 (Elements next) = Return (heads, remainders, True)
      \<and> row_group rw auto maxSize cols next = Return grp \<longrightarrow>
        (\<exists>rest. grp = \<lparr>Elements = heads, Continuous = True\<rparr> # rest \<and> rest \<noteq> []
           \<and> row_group rw auto maxSize cols \<lparr>Elements = remainders, Continuous = False\<rparr>
               = Return rest
           \<and> (\<forall>r \<in> set (butlast rest). Continuous r) \<and> \<not> Continuous (last rest)))"
proof (intro conjI impI)
  assume "Data t \<noteq> []"
  then show "wrapCellData rw t cols = all_groups rw (AutoSize t) (MaxSize t) cols (Data t)"
    by (rule wrapCellData_all_groups)
next
  assume a: "wrapCells rw auto maxSize cols 0 (Elements next) = Return (heads, remainders, True)
      \<and> row_group rw auto maxSize cols next = Return grp"
  then obtain rest where
    r: "row_group rw auto maxSize cols \<lparr>Elements = remainders, Continuous = False\<rparr> = Return rest"
    and g: "grp = \<lparr>Elements = heads, Continuous = True\<rparr> # rest"
    by (subst (asm) row_group.simps) (auto simp del: row_group.simps split: outcome.splits)
  from row_group_flags [OF r] r g
  show "\<exists>rest. grp = \<lparr>Elements = heads, Continuous = True\<rparr> # rest \<and> rest \<noteq> []
           \<and> row_group rw auto maxSize cols \<lparr>Elements = remainders, Continuous = False\<rparr>
               = Return rest
           \<and> (\<forall>r \<in> set (butlast rest). Continuous r) \<and> \<not> Continuous (last rest)"
    by blast
qed

theorem wrapCellData_groups_witness:
  "Data (SetMaxCellSize 5 (Create [data_row [''hello world'', ''x''] False, data_row [''a''] False])) \<noteq> []
   \<and> all_groups RuneWidth False 5 []
         [data_row [''hello world'', ''x''] False, data_row [''a''] False]
       = Return [data_row [''hello'', ''x''] True, data_row ['' '', []] True,
                 data_row [''world'', []] False, data_row [''a''] False]
   \<and> wrapCells RuneWidth False 5 [] 0 (Elements (data_row [''hello world'', ''x''] False))
       = Return ([runes ''hello'', runes ''x''], [runes '' world'', []], True)
   \<and> row_group RuneWidth False 5 [] (data_row [''hello world'', ''x''] False)
       = Return [data_row [''hello'', ''x''] True, data_row ['' '', []] True,
                 data_row [''world'', []] False]"
  using wrapCellData_groups [of
          "SetMaxCellSize 5 (Create [data_row [''hello world'', ''x''] False, data_row [''a''] False])"
          RuneWidth "[]" False 5 "data_row [''hello world'', ''x''] False"
          "[runes ''hello'', runes ''x'']" "[runes '' world'', []]"
          "[data_row [''hello'', ''x''] True, data_row ['' '', []] True, data_row [''world'', []] False]"]
  by (simp add: eval_defs)

end
